theory Spec2Isabelle
  imports Main "HOL-Library.Sublist"
begin

section \<open>Python string operations used by the two modules\<close>

text \<open>
  Python \<open>str\<close> values are modelled as \<open>string\<close>, one \<open>char\<close> per character; the command
  files the tool reads are ASCII, and the character classes below are the ASCII part of
  Python's \<open>str.isalnum\<close>, \<open>str.isspace\<close> and \<open>str.lower\<close>.
\<close>

datatype error = IndexError | ValueError | Exception | OSError

text \<open>\<open>s.startswith(p)\<close> and \<open>s.endswith(p)\<close>.\<close>

definition startswith :: "string \<Rightarrow> string \<Rightarrow> bool" where
  "startswith s p = (take (length p) s = p)"

definition endswith :: "string \<Rightarrow> string \<Rightarrow> bool" where
  "endswith s p = (length p \<le> length s \<and> drop (length s - length p) s = p)"

text \<open>\<open>sub in s\<close>: \<open>sub\<close> occurs in \<open>s\<close> as a contiguous run of characters.\<close>

fun str_in :: "string \<Rightarrow> string \<Rightarrow> bool" where
  "str_in sub [] = (sub = [])"
| "str_in sub (c # cs) = (startswith (c # cs) sub \<or> str_in sub cs)"

text \<open>
  \<open>s.replace(old, new)\<close> for a non-empty \<open>old\<close>: the occurrences of \<open>old\<close> are found from
  the left and do not overlap; the text after a replaced occurrence is scanned on, the
  replacement itself is not scanned again.
\<close>

function replace :: "string \<Rightarrow> string \<Rightarrow> string \<Rightarrow> string" where
  "replace [] old new = []"
| "replace (c # cs) old new =
     (if old \<noteq> [] \<and> startswith (c # cs) old
      then new @ replace (drop (length old) (c # cs)) old new
      else c # replace cs old new)"
  by pat_completeness auto
termination
  by (relation "measure (\<lambda>(s, old, new). length s)") auto

text \<open>
  \<open>s.split(sep)\<close> for a non-empty \<open>sep\<close>: the pieces between the occurrences of \<open>sep\<close>,
  found from the left without overlap; the result always has at least one piece.
  \<open>acc\<close> holds the current piece, reversed.
\<close>

function split_from :: "string \<Rightarrow> string \<Rightarrow> string \<Rightarrow> string list" where
  "split_from acc [] sep = [rev acc]"
| "split_from acc (c # cs) sep =
     (if sep \<noteq> [] \<and> startswith (c # cs) sep
      then rev acc # split_from [] (drop (length sep) (c # cs)) sep
      else split_from (c # acc) cs sep)"
  by pat_completeness auto
termination
  by (relation "measure (\<lambda>(acc, s, sep). length s)") auto

definition split :: "string \<Rightarrow> string \<Rightarrow> string list" where
  "split s sep = split_from [] s sep"

text \<open>\<open>c.isspace()\<close>, \<open>s.strip()\<close> and \<open>s.split()\<close> (split at runs of whitespace).\<close>

definition isspace :: "char \<Rightarrow> bool" where
  "isspace c = (let n = (of_char c :: nat) in (9 \<le> n \<and> n \<le> 13) \<or> (28 \<le> n \<and> n \<le> 32))"

definition strip :: "string \<Rightarrow> string" where
  "strip s = rev (dropWhile isspace (rev (dropWhile isspace s)))"

fun words_from :: "string \<Rightarrow> string \<Rightarrow> string list" where
  "words_from acc [] = (if acc = [] then [] else [rev acc])"
| "words_from acc (c # cs) =
     (if isspace c
      then (if acc = [] then words_from [] cs else rev acc # words_from [] cs)
      else words_from (c # acc) cs)"

definition split_ws :: "string \<Rightarrow> string list" where
  "split_ws s = words_from [] s"

text \<open>\<open>s.isalnum()\<close> and \<open>s.lower()\<close>.\<close>

definition isalnum_char :: "char \<Rightarrow> bool" where
  "isalnum_char c =
     (let n = (of_char c :: nat)
      in (48 \<le> n \<and> n \<le> 57) \<or> (65 \<le> n \<and> n \<le> 90) \<or> (97 \<le> n \<and> n \<le> 122))"

definition isalnum :: "string \<Rightarrow> bool" where
  "isalnum s = (s \<noteq> [] \<and> list_all isalnum_char s)"

definition lower_char :: "char \<Rightarrow> char" where
  "lower_char c =
     (let n = (of_char c :: nat) in if 65 \<le> n \<and> n \<le> 90 then char_of (n + 32) else c)"

definition lower :: "string \<Rightarrow> string" where
  "lower s = map lower_char s"

text \<open>\<open>xs[i]\<close> for \<open>i \<ge> 0\<close>: Python raises \<open>IndexError\<close> out of range.\<close>

definition index :: "'a list \<Rightarrow> nat \<Rightarrow> error + 'a" where
  "index xs i = (if i < length xs then Inr (xs ! i) else Inl IndexError)"


section \<open>run\_bulk\_jobs.py: the job classifier\<close>

text \<open>
  \<^verbatim>\<open>
  def has_logfile(command):
      if any(script in command for script in ["runjob", "publish"]):
          return True
      return False
  \<close>
\<close>

definition has_logfile :: "string \<Rightarrow> bool" where
  "has_logfile command =
     (if list_ex (\<lambda>script. str_in script command) [''runjob'', ''publish''] then True else False)"


section \<open>The lookup of the run command of an SRG job\<close>

text \<open>
  \<open>cs_db.DataBase.mssql_query(sql)\<close> is outside the repository. The query text is fixed up
  to the job name, so the database is a function from the job name to what the call does:
  it raises, or it returns rows, each with its \<open>RUNJOB_CMD\<close> column (\<open>None\<close> for NULL).
\<close>

datatype db_result = Rows "string option list" | QueryError

text \<open>
  \<^verbatim>\<open>
  def get_srg_runjob_command(job_nm):
      job_nm = f"mis_{job_nm.split('/')[-1].split('praa')[-1].split('.ctl')[0]}_00_c"
      ...
      try:
          data = cs_db.DataBase.mssql_query(sql)
          if len(data) > 1:
              logwarning(...)
              return
          if len(data) < 1:
              raise Exception(...)
          return data[0].get('RUNJOB_CMD')
      except Exception as e:
          logerr(...)
          return
  \<close>
  \<open>run_bulk_jobs.py\<close> imports the function from \<open>cs_artifact\<close>; its text is the one at the
  end of \<open>cs_unix_util.py\<close>, where the statement \<open>raise Exception f"..."\<close> is read as the
  raise of an exception, caught by the handler below it.
  \<open>split\<close> never returns an empty list, so \<open>[-1]\<close> and \<open>[0]\<close> are \<open>last\<close> and \<open>hd\<close>.
\<close>

definition get_srg_runjob_command :: "(string \<Rightarrow> db_result) \<Rightarrow> string \<Rightarrow> string option" where
  "get_srg_runjob_command mssql_query job_nm =
     (let job_nm = ''mis_'' @ hd (split (last (split (last (split job_nm ''/'')) ''praa'')) ''.ctl'')
                     @ ''_00_c''
      in case mssql_query job_nm of
           QueryError \<Rightarrow> None
         | Rows data \<Rightarrow>
             if length data > 1 then None
             else if length data < 1 then None
             else data ! 0)"


section \<open>run\_bulk\_jobs.py: the command normalizer\<close>

text \<open>
  \<^verbatim>\<open>
  def scrub_line(line):
      original_line = line
      if len(line) == 4 and line.isalnum():
          line = f"praa{line}.ctl"
      line = line.replace("./", "")
      if line.startswith("praa"):
          line = "/NAS/mis/esp/scripts/" + line + ("" if line.endswith('.ctl') else ".ctl")
      if ".ctl" in line:
          if line.split('/NAS/mis/esp/scripts/praa')[1][1] == "i":
              line = get_srg_runjob_command(line)
              if not line:
                  return original_line, True
      return line, False
  \<close>
  The two subscripts \<open>[1][1]\<close> raise \<open>IndexError\<close> out of range; nothing in
  \<open>scrub_line\<close> or in its caller catches it.
\<close>

definition scrub_line :: "(string \<Rightarrow> db_result) \<Rightarrow> string \<Rightarrow> error + (string \<times> bool)" where
  "scrub_line mssql_query original_line =
     (let line = original_line;
          line = (if length line = 4 \<and> isalnum line then ''praa'' @ line @ ''.ctl'' else line);
          line = replace line ''./'' '''';
          line = (if startswith line ''praa''
                  then ''/NAS/mis/esp/scripts/'' @ line
                         @ (if endswith line ''.ctl'' then '''' else ''.ctl'')
                  else line)
      in if str_in ''.ctl'' line
         then (case index (split line ''/NAS/mis/esp/scripts/praa'') 1 of
                 Inl e \<Rightarrow> Inl e
               | Inr rest \<Rightarrow>
                   (case index rest 1 of
                      Inl e \<Rightarrow> Inl e
                    | Inr c \<Rightarrow>
                        if c = CHR ''i''
                        then (case get_srg_runjob_command mssql_query line of
                                None \<Rightarrow> Inr (original_line, True)
                              | Some line \<Rightarrow>
                                  if line = [] then Inr (original_line, True)
                                  else Inr (line, False))
                        else Inr (line, False)))
         else Inr (line, False))"

text \<open>A database in which no job is registered: every query returns no row.\<close>

definition no_rows :: "string \<Rightarrow> db_result" where
  "no_rows job_nm = Rows []"

text \<open>A database that cannot be reached: every query raises.\<close>

definition offline :: "string \<Rightarrow> db_result" where
  "offline job_nm = QueryError"


section \<open>The state of one run\<close>

text \<open>
  \<open>results_dict\<close> is a Python \<open>dict\<close>: keys are unique and keep the order of their first
  insertion. \<open>results_dict[k] = v\<close> overwrites the value of a key that is present and
  appends a new key otherwise.
\<close>

fun dict_set :: "(string \<times> string) list \<Rightarrow> string \<Rightarrow> string \<Rightarrow> (string \<times> string) list" where
  "dict_set [] k v = [(k, v)]"
| "dict_set ((k', v') # d) k v = (if k' = k then (k, v) # d else (k', v') # dict_set d k v)"

text \<open>
  The state has the orchestrator's variables and two logs of what the run has done so far:
  \<open>spawned\<close>, the commands for which a subprocess was created, and \<open>scrubbed\<close>, the lines
  handed to \<open>scrub_line\<close>. \<open>logfile_notes\<close> are the "Logfile available at" notes printed.
\<close>

record state =
  results_dict :: "(string \<times> string) list"
  failure_count :: nat
  skipped_count :: nat
  spawned :: "string list"
  scrubbed :: "string list"
  logfile_notes :: "(string \<times> string) list"

definition initial_state :: state where
  "initial_state =
     \<lparr>results_dict = [], failure_count = 0, skipped_count = 0,
      spawned = [], scrubbed = [], logfile_notes = []\<rparr>"


section \<open>cs\_unix\_util.py: the concurrent executor\<close>

text \<open>
  The second component of a result tuple is \<open>True\<close>, \<open>False\<close> or the string \<open>'SKIPPED'\<close> in
  the executor; the orchestrator also tests it against \<open>None\<close>.
\<close>

datatype pyval = PyBool bool | PyStr string | PyNone

text \<open>
  What the operating system does with the subprocess of one task: it exits with a return
  code, it never exits, or it cannot be created (\<open>create_subprocess_shell\<close> raises).
\<close>

datatype proc_result = Exit int | Hang | SpawnError

text \<open>What awaiting one coroutine gives: a result, an exception, or nothing, ever.\<close>

datatype 'a awaited = Returned 'a | Raised error | Pending

text \<open>
  \<^verbatim>\<open>
  async def run_command_async(command, results_dict={}):
      if command in results_dict:
          return command, 'SKIPPED'
      failed = False
      proc = await asyncio.create_subprocess_shell(command, stdout=DEVNULL, stderr=DEVNULL)
      await proc.wait()
      if proc.returncode != 0:
          failed = True
      return command, failed
  \<close>
  \<open>i\<close> is the position of the task in the batch: two tasks with the same command are two
  subprocesses, which may end differently.
\<close>

definition run_command_async ::
  "(nat \<Rightarrow> string \<Rightarrow> proc_result) \<Rightarrow> nat \<Rightarrow> string \<Rightarrow> state \<Rightarrow> (string \<times> pyval) awaited \<times> state" where
  "run_command_async subprocess i command st =
     (if command \<in> set (map fst (results_dict st)) then (Returned (command, PyStr ''SKIPPED''), st)
      else (case subprocess i command of
              SpawnError \<Rightarrow> (Raised OSError, st)
            | Hang \<Rightarrow> (Pending, st\<lparr>spawned := spawned st @ [command]\<rparr>)
            | Exit returncode \<Rightarrow>
                (Returned (command, PyBool (if returncode \<noteq> 0 then True else False)),
                 st\<lparr>spawned := spawned st @ [command]\<rparr>)))"

text \<open>
  \<^verbatim>\<open>
  async def run_commands_async(commands, results_dict={}):
      tasks = [run_command_async(command, results_dict) for command in commands]
      return await asyncio.gather(*tasks)
  \<close>
  \<open>asyncio.gather\<close> starts the coroutines in the order given (\<open>start_tasks\<close>); each runs
  up to the creation of its subprocess. The tasks then complete in an order the program
  does not control: \<open>order\<close> lists the positions of the tasks in the order of their
  completion. \<open>gather\<close> stores each result in the slot of its task; the first exception of
  a task is raised to the caller; when every slot is filled the list of slots is the
  result, and while one is empty the caller stays suspended.
\<close>

fun start_tasks ::
  "(nat \<Rightarrow> string \<Rightarrow> proc_result) \<Rightarrow> nat \<Rightarrow> string list \<Rightarrow> state
     \<Rightarrow> (string \<times> pyval) awaited list \<times> state" where
  "start_tasks subprocess i [] st = ([], st)"
| "start_tasks subprocess i (command # commands) st =
     (case run_command_async subprocess i command st of
        (task, st') \<Rightarrow>
          (case start_tasks subprocess (Suc i) commands st' of
             (tasks, st'') \<Rightarrow> (task # tasks, st'')))"

fun gather ::
  "(string \<times> pyval) awaited list \<Rightarrow> nat list \<Rightarrow> (string \<times> pyval) option list
     \<Rightarrow> (string \<times> pyval) list awaited" where
  "gather tasks [] slots =
     (if list_all (\<lambda>slot. slot \<noteq> None) slots then Returned (map the slots) else Pending)"
| "gather tasks (i # order) slots =
     (if i < length tasks
      then (case tasks ! i of
              Returned r \<Rightarrow> gather tasks order (slots[i := Some r])
            | Raised e \<Rightarrow> Raised e
            | Pending \<Rightarrow> gather tasks order slots)
      else gather tasks order slots)"

definition run_commands_async ::
  "(nat \<Rightarrow> string \<Rightarrow> proc_result) \<Rightarrow> nat list \<Rightarrow> string list \<Rightarrow> state
     \<Rightarrow> (string \<times> pyval) list awaited \<times> state" where
  "run_commands_async subprocess order commands st =
     (case start_tasks subprocess 0 commands st of
        (tasks, st') \<Rightarrow> (gather tasks order (replicate (length tasks) None), st'))"

text \<open>An operating system on which every command exits with status 0.\<close>

definition all_succeed :: "nat \<Rightarrow> string \<Rightarrow> proc_result" where
  "all_succeed i command = Exit 0"

text \<open>An operating system on which the command of the first task exits with status 1.\<close>

definition first_fails :: "nat \<Rightarrow> string \<Rightarrow> proc_result" where
  "first_fails i command = (if i = 0 then Exit 1 else Exit 0)"


section \<open>The environment of a run\<close>

text \<open>
  Everything the program asks of the outside: the two predicates of \<open>cs_environment\<close>,
  the variable \<open>WORKING_JOBS_DIR\<close>, \<open>os.path.exists\<close>, the lines of a file (\<open>None\<close> when
  \<open>open\<close> raises), the database, the subprocesses of the executor and the order in which
  they complete, and what \<open>Popen(...).communicate()\<close> and the decoding of its output give
  for a shell command (the bytes of standard output as text, or an exception).
\<close>

record environment =
  current_user_is_production :: bool
  current_machine_is_production_server :: bool
  getenv_WORKING_JOBS_DIR :: "string option"
  path_exists :: "string \<Rightarrow> bool"
  readlines :: "string \<Rightarrow> string list option"
  mssql_query :: "string \<Rightarrow> db_result"
  subprocess :: "nat \<Rightarrow> string \<Rightarrow> proc_result"
  completion_order :: "nat list"
  popen_output :: "string \<Rightarrow> error + string"


section \<open>cs\_unix\_util.py: the log resolver\<close>

text \<open>
  \<^verbatim>\<open>
  def get_unix_command_output(unix_cmd):
      proc = subprocess.Popen(unix_cmd, stdout=subprocess.PIPE, shell=True)
      output, err = proc.communicate()
      if not output:
          logerr(...)
          return ""
      return output.decode('utf-8').strip()
  \<close>
\<close>

definition get_unix_command_output :: "environment \<Rightarrow> string \<Rightarrow> error + string" where
  "get_unix_command_output env unix_cmd =
     (case popen_output env unix_cmd of
        Inl e \<Rightarrow> Inl e
      | Inr output \<Rightarrow> if output = [] then Inr '''' else Inr (strip output))"

text \<open>
  \<^verbatim>\<open>
  def publish_to_runjob(publish_cmd):
      dir_name = f"{'/NAS/mis/jobs' if env.current_user_is_production()
                    else os.getenv('WORKING_JOBS_DIR')}/all/publish/scpt"
      pub_name, pub_id = publish_cmd.split()[1].lower().split('-')
      possible_cfg = f"{dir_name}/{pub_name}-{pub_id}_publish.cfg"
      if os.path.exists(possible_cfg):
          return f"runjob all_publish {pub_name}-{pub_id}_publish"
      possible_cfg = ''.join(possible_cfg.split('-'))
      if os.path.exists(possible_cfg):
          return f"runjob all_publish {pub_name}{pub_id}_publish"
      return
  \<close>
  An unset variable is formatted as \<open>None\<close>; unpacking anything but two pieces raises
  \<open>ValueError\<close>.
\<close>

definition publish_to_runjob :: "environment \<Rightarrow> string \<Rightarrow> error + string option" where
  "publish_to_runjob env publish_cmd =
     (let dir_name =
            (if current_user_is_production env then ''/NAS/mis/jobs''
             else (case getenv_WORKING_JOBS_DIR env of None \<Rightarrow> ''None'' | Some d \<Rightarrow> d))
            @ ''/all/publish/scpt''
      in case index (split_ws publish_cmd) 1 of
           Inl e \<Rightarrow> Inl e
         | Inr word \<Rightarrow>
             (case split (lower word) ''-'' of
                [pub_name, pub_id] \<Rightarrow>
                  (let possible_cfg = dir_name @ ''/'' @ pub_name @ ''-'' @ pub_id @ ''_publish.cfg''
                   in if path_exists env possible_cfg
                      then Inr (Some (''runjob all_publish '' @ pub_name @ ''-'' @ pub_id @ ''_publish''))
                      else (let possible_cfg = concat (split possible_cfg ''-'')
                            in if path_exists env possible_cfg
                               then Inr (Some (''runjob all_publish '' @ pub_name @ pub_id @ ''_publish''))
                               else Inr None))
              | _ \<Rightarrow> Inl ValueError))"

text \<open>
  \<^verbatim>\<open>
  def get_runjob_logfile(runjob_cmd):
      try:
          if runjob_cmd.startswith('publish'):
              runjob_cmd = publish_to_runjob(runjob_cmd)
              if not runjob_cmd:
                  raise Exception("No CFG file matching the provided report number found")
          is_srg = (runjob_cmd.split()[1] == "srg")
          identifier = runjob_cmd.split()[2]
          is_prod = env.current_machine_is_production_server()
          base_dir = "/NAS/mis/" if is_prod else "/NAS/mis/tmp/_"
          base_dir += "srg" if is_srg else "jobs/"
          if is_prod:
              if is_srg:
                  get_srg_name_command = f"ls -d {base_dir}/*/ | grep {identifier}"
                  srg_name = get_unix_command_output(get_srg_name_command)
                                 .split('/NAS/mis/srg/')[1][:-1]
                  return f"/NAS/mis/srg/'{srg_name}'/logs/logfile.txt"
              else:
                  pieces = runjob_cmd.split()[1].split('_')
                  base_dir += f"{pieces[0]}/{pieces[1]}/log"
          else:
              if not is_srg:
                  base_dir += runjob_cmd.split()[1]
          logfile_command = f"ls -ltr {base_dir}/{identifier}* | tail -1 " + "| awk '{print $NF}'"
          return get_unix_command_output(logfile_command)
      except Exception as err:
          logerr(...)
          return "<LOGFILE RETRIEVAL ERROR>"
  \<close>
  \<open>get_runjob_logfile_try\<close> is the body of the \<open>try\<close>; \<open>get_runjob_logfile\<close> adds the
  handler. The two shell commands are the source's \<open>get_srg_name_command\<close> and
  \<open>logfile_command\<close>, as functions of the variables they format.
\<close>

definition get_srg_name_command :: "string \<Rightarrow> string \<Rightarrow> string" where
  "get_srg_name_command base_dir identifier = ''ls -d '' @ base_dir @ ''/*/ | grep '' @ identifier"

definition logfile_command :: "string \<Rightarrow> string \<Rightarrow> string" where
  "logfile_command base_dir identifier =
     ''ls -ltr '' @ base_dir @ ''/'' @ identifier @ ''* | tail -1 '' @ ''| awk '{print $NF}'' @ [CHR 0x27]"

definition get_runjob_logfile_try :: "environment \<Rightarrow> string \<Rightarrow> error + string" where
  "get_runjob_logfile_try env runjob_cmd =
     (case (if startswith runjob_cmd ''publish''
            then (case publish_to_runjob env runjob_cmd of
                    Inl e \<Rightarrow> Inl e
                  | Inr None \<Rightarrow> Inl Exception
                  | Inr (Some cmd) \<Rightarrow> if cmd = [] then Inl Exception else Inr cmd)
            else Inr runjob_cmd) of
        Inl e \<Rightarrow> Inl e
      | Inr runjob_cmd \<Rightarrow>
          (case index (split_ws runjob_cmd) 1 of
             Inl e \<Rightarrow> Inl e
           | Inr word1 \<Rightarrow>
               (case index (split_ws runjob_cmd) 2 of
                  Inl e \<Rightarrow> Inl e
                | Inr identifier \<Rightarrow>
                    (let is_srg = (word1 = ''srg'');
                         is_prod = current_machine_is_production_server env;
                         base_dir = (if is_prod then ''/NAS/mis/'' else ''/NAS/mis/tmp/_'');
                         base_dir = base_dir @ (if is_srg then ''srg'' else ''jobs/'')
                     in if is_prod \<and> is_srg
                        then (case get_unix_command_output env
                                     (get_srg_name_command base_dir identifier) of
                                Inl e \<Rightarrow> Inl e
                              | Inr out \<Rightarrow>
                                  (case index (split out ''/NAS/mis/srg/'') 1 of
                                     Inl e \<Rightarrow> Inl e
                                   | Inr piece \<Rightarrow>
                                       Inr (''/NAS/mis/srg/'' @ [CHR 0x27] @ butlast piece
                                              @ [CHR 0x27] @ ''/logs/logfile.txt'')))
                        else (case (if is_prod
                                    then (case index (split word1 ''_'') 1 of
                                            Inl e \<Rightarrow> Inl e
                                          | Inr piece1 \<Rightarrow>
                                              Inr (base_dir @ hd (split word1 ''_'') @ ''/''
                                                     @ piece1 @ ''/log''))
                                    else if \<not> is_srg then Inr (base_dir @ word1)
                                    else Inr base_dir) of
                                Inl e \<Rightarrow> Inl e
                              | Inr base_dir \<Rightarrow>
                                  get_unix_command_output env
                                    (logfile_command base_dir identifier))))))"

definition get_runjob_logfile :: "environment \<Rightarrow> string \<Rightarrow> error + string" where
  "get_runjob_logfile env runjob_cmd =
     (case get_runjob_logfile_try env runjob_cmd of
        Inl err \<Rightarrow> Inr ''<LOGFILE RETRIEVAL ERROR>''
      | Inr logfile \<Rightarrow> Inr logfile)"


section \<open>run\_bulk\_jobs.py: the orchestrator\<close>

text \<open>
  \<^verbatim>\<open>
  def check_valid_line(line):
      if not line.strip() or line.startswith('#') or line.startswith('//'):
          return False
      return True
  \<close>
\<close>

definition check_valid_line :: "string \<Rightarrow> bool" where
  "check_valid_line line =
     (if strip line = [] \<or> startswith line ''#'' \<or> startswith line ''//'' then False else True)"

text \<open>
  \<open>os.path.dirname(p)\<close>: the part of \<open>p\<close> up to its last slash, without the trailing
  slashes unless it consists of slashes only.
\<close>

definition dirname :: "string \<Rightarrow> string" where
  "dirname p =
     (let head = rev (dropWhile (\<lambda>c. c \<noteq> CHR ''/'') (rev p))
      in if head \<noteq> [] \<and> \<not> list_all (\<lambda>c. c = CHR ''/'') head
         then rev (dropWhile (\<lambda>c. c = CHR ''/'') (rev head))
         else head)"

text \<open>
  \<^verbatim>\<open>
  for ind in range(total_lines):
      lines[ind], skip_ctl = scrub_line(lines[ind].strip())
      if skip_ctl:
          results_dict[lines[ind]] = "SKIPPED"
          continue
  \<close>
  An exception of \<open>scrub_line\<close> ends the loop and the program.
\<close>

fun scrub_lines ::
  "(string \<Rightarrow> db_result) \<Rightarrow> string list \<Rightarrow> state \<Rightarrow> (error + string list) \<times> state" where
  "scrub_lines db [] st = (Inr [], st)"
| "scrub_lines db (l # ls) st =
     (let st = st\<lparr>scrubbed := scrubbed st @ [strip l]\<rparr>
      in case scrub_line db (strip l) of
           Inl e \<Rightarrow> (Inl e, st)
         | Inr (line, skip_ctl) \<Rightarrow>
             (let st = (if skip_ctl
                        then st\<lparr>results_dict := dict_set (results_dict st) line ''SKIPPED''\<rparr>
                        else st)
              in case scrub_lines db ls st of
                   (Inl e, st) \<Rightarrow> (Inl e, st)
                 | (Inr lines, st) \<Rightarrow> (Inr (line # lines), st)))"

text \<open>
  \<^verbatim>\<open>
  for ind, (command, failed) in enumerate(result_tuples):
      if failed is None:
          results_dict[command] = "LONGRUN"
          failure_count += 1
      elif failed == 'SKIPPED':
          skipped_count += 1
      elif failed:
          results_dict[command] = "FAILURE"
          failure_count += 1
      else:
          results_dict[command] = "SUCCESS"
  \<close>
\<close>

definition truthy :: "pyval \<Rightarrow> bool" where
  "truthy v = (case v of PyBool b \<Rightarrow> b | PyStr s \<Rightarrow> s \<noteq> [] | PyNone \<Rightarrow> False)"

definition record_result :: "string \<times> pyval \<Rightarrow> state \<Rightarrow> state" where
  "record_result result st =
     (case result of
        (command, failed) \<Rightarrow>
          if failed = PyNone
          then st\<lparr>results_dict := dict_set (results_dict st) command ''LONGRUN'',
                  failure_count := failure_count st + 1\<rparr>
          else if failed = PyStr ''SKIPPED''
          then st\<lparr>skipped_count := skipped_count st + 1\<rparr>
          else if truthy failed
          then st\<lparr>results_dict := dict_set (results_dict st) command ''FAILURE'',
                  failure_count := failure_count st + 1\<rparr>
          else st\<lparr>results_dict := dict_set (results_dict st) command ''SUCCESS''\<rparr>)"

text \<open>
  \<^verbatim>\<open>
  for ind, k in enumerate(results_dict):
      v = results_dict[k]
      if v == "LONGRUN":
          if has_logfile(k):
              print_console_note("Logfile available at: " + cs_util.get_runjob_logfile(k))
      elif v == "FAILURE":
          if has_logfile(k):
              print_console_note("Logfile available at: " + cs_util.get_runjob_logfile(k))
      elif v == "SKIPPED":
          logmsg(...)
  \<close>
  The result is the list of the notes printed, each with its command.
\<close>

fun report :: "environment \<Rightarrow> (string \<times> string) list \<Rightarrow> error + (string \<times> string) list" where
  "report env [] = Inr []"
| "report env ((k, v) # d) =
     (if (v = ''LONGRUN'' \<or> v = ''FAILURE'') \<and> has_logfile k
      then (case get_runjob_logfile env k of
              Inl e \<Rightarrow> Inl e
            | Inr logfile \<Rightarrow>
                (case report env d of
                   Inl e \<Rightarrow> Inl e
                 | Inr notes \<Rightarrow> Inr ((k, logfile) # notes)))
      else report env d)"

text \<open>
  The main program. \<open>argv\<close> is \<open>sys.argv\<close>, the script name first. The result is how the
  process ends, with the state reached: \<open>Returned n\<close> is the exit status \<open>n\<close>
  (\<open>sys.exit(1)\<close>, or 0 at the end of the script), \<open>Raised e\<close> an uncaught exception, on
  which the interpreter prints the traceback and exits with status 1, and \<open>Pending\<close> a
  run that never ends.
  \<^verbatim>\<open>
  missing_jira_id = env.current_user_is_production() and len(sys.argv) < 3
  if (len(sys.argv) not in [2,3]) or missing_jira_id:
      ...
      sys.exit(1)
  input_filename = sys.argv[1]
  if not os.path.exists(os.path.dirname(input_filename)):
      ...
      sys.exit(1)
  ...
  results_dict = {}
  failure_count = skipped_count = 0
  with open(input_filename) as f:
      lines = list(filter(cs_util.check_valid_line, f.readlines()))
  total_lines = len(lines)
  (the loop of scrub_lines)
  result_tuples = asyncio.run(cs_util.run_commands_async(lines, results_dict=results_dict))
  (the loop of record_result)
  if failure_count > 0:
      (the loop of report)
  \<close>
\<close>

definition main :: "environment \<Rightarrow> string list \<Rightarrow> int awaited \<times> state" where
  "main env argv =
     (let st = initial_state;
          missing_jira_id = (current_user_is_production env \<and> length argv < 3)
      in if length argv \<notin> set [2, 3] \<or> missing_jira_id then (Returned 1, st)
         else (let input_filename = argv ! 1
               in if \<not> path_exists env (dirname input_filename) then (Returned 1, st)
                  else (case readlines env input_filename of
                          None \<Rightarrow> (Raised OSError, st)
                        | Some file_lines \<Rightarrow>
                            (case scrub_lines (mssql_query env)
                                    (filter check_valid_line file_lines) st of
                               (Inl e, st) \<Rightarrow> (Raised e, st)
                             | (Inr lines, st) \<Rightarrow>
                                 (case run_commands_async (subprocess env)
                                         (completion_order env) lines st of
                                    (Raised e, st) \<Rightarrow> (Raised e, st)
                                  | (Pending, st) \<Rightarrow> (Pending, st)
                                  | (Returned result_tuples, st) \<Rightarrow>
                                      (let st = fold record_result result_tuples st
                                       in if failure_count st > 0
                                          then (case report env (results_dict st) of
                                                  Inl e \<Rightarrow> (Raised e, st)
                                                | Inr notes \<Rightarrow>
                                                    (Returned 0, st\<lparr>logfile_notes := notes\<rparr>))
                                          else (Returned 0, st)))))))"

text \<open>The exit status of the process, when it ends.\<close>

definition exit_status :: "int awaited \<Rightarrow> int option" where
  "exit_status r = (case r of Returned n \<Rightarrow> Some n | Raised e \<Rightarrow> Some 1 | Pending \<Rightarrow> None)"


section \<open>Sample runs\<close>

text \<open>
  A development host on which the file \<open>/tmp/jobs.txt\<close> holds the job code \<open>abcd\<close> twice,
  no job is registered in the database, every command exits with status 0 and the listing
  of a log directory prints nothing.
\<close>

definition sample_env :: environment where
  "sample_env =
     \<lparr>current_user_is_production = False,
      current_machine_is_production_server = False,
      getenv_WORKING_JOBS_DIR = None,
      path_exists = (\<lambda>p. p = ''/tmp''),
      readlines = (\<lambda>f. if f = ''/tmp/jobs.txt''
                        then Some [''abcd\<newline>'', ''abcd\<newline>''] else None),
      mssql_query = no_rows,
      subprocess = all_succeed,
      completion_order = [0, 1],
      popen_output = (\<lambda>unix_cmd. Inr [])\<rparr>"


section \<open>Facts about the string operations\<close>

lemma startswith_prefix: "startswith s p = prefix p s"
  unfolding startswith_def
  by (metis append_eq_conv_conj prefix_def take_is_prefix)

lemma str_in_sublist: "str_in sub s = sublist sub s"
  by (induction s) (simp_all add: sublist_Cons_right startswith_prefix)


lemma replace_absent: "\<not> str_in old s \<Longrightarrow> replace s old new = s"
  by (induction s) simp_all

section \<open>Facts about the executor\<close>

lemma run_command_async_frame:
  "results_dict (snd (run_command_async os i c st)) = results_dict st"
  by (simp add: run_command_async_def split: proc_result.split)

lemma run_command_async_Returned:
  "fst (run_command_async os i c st) = Returned r \<Longrightarrow> fst r = c \<and> snd r \<noteq> PyNone"
  by (auto simp: run_command_async_def split: proc_result.splits if_splits)

lemma start_tasks_Cons:
  "start_tasks os i (c # cs) st =
     (fst (run_command_async os i c st)
        # fst (start_tasks os (Suc i) cs (snd (run_command_async os i c st))),
      snd (start_tasks os (Suc i) cs (snd (run_command_async os i c st))))"
  by (simp split: prod.split)

lemma start_tasks_frame:
  "results_dict (snd (start_tasks os i cs st)) = results_dict st"
  by (induction cs arbitrary: i st)
     (simp_all add: start_tasks_Cons run_command_async_frame del: start_tasks.simps(2))

lemma start_tasks_length: "length (fst (start_tasks os i cs st)) = length cs"
  by (induction cs arbitrary: i st) (simp_all add: start_tasks_Cons del: start_tasks.simps(2))

lemma start_tasks_nth:
  "k < length cs \<Longrightarrow>
     \<exists>st'. results_dict st' = results_dict st \<and>
           fst (start_tasks os i cs st) ! k = fst (run_command_async os (i + k) (cs ! k) st')"
proof (induction cs arbitrary: i st k)
  case Nil
  then show ?case by simp
next
  case (Cons c cs)
  show ?case
  proof (cases k)
    case 0
    then show ?thesis by (intro exI [of _ st]) (simp add: start_tasks_Cons del: start_tasks.simps(2))
  next
    case (Suc j)
    then have "j < length cs" using Cons.prems by simp
    then obtain st' where
      "results_dict st' = results_dict (snd (run_command_async os i c st))"
      "fst (start_tasks os (Suc i) cs (snd (run_command_async os i c st))) ! j
         = fst (run_command_async os (Suc i + j) (cs ! j) st')"
      using Cons.IH by blast
    then show ?thesis using Suc
      by (intro exI [of _ st'])
         (simp add: start_tasks_Cons run_command_async_frame del: start_tasks.simps(2))
  qed
qed

lemma gather_Returned:
  "length slots = length tasks \<Longrightarrow>
   (\<forall>i<length tasks. \<forall>r. slots ! i = Some r \<longrightarrow> tasks ! i = Returned r) \<Longrightarrow>
   gather tasks order slots = Returned rs \<Longrightarrow>
   map Returned rs = tasks"
proof (induction order arbitrary: slots)
  case Nil
  then have all: "list_all (\<lambda>slot. slot \<noteq> None) slots" and rs: "rs = map the slots"
    by (auto split: if_splits)
  show ?case
  proof (rule nth_equalityI)
    show "length (map Returned rs) = length tasks" using rs Nil.prems(1) by simp
  next
    fix i assume "i < length (map Returned rs)"
    then have i: "i < length tasks" using rs Nil.prems(1) by simp
    then have "slots ! i \<noteq> None" using all Nil.prems(1) by (simp add: list_all_length)
    then obtain r where r: "slots ! i = Some r" by blast
    then have "tasks ! i = Returned r" using Nil.prems(2) i by blast
    then show "map Returned rs ! i = tasks ! i" using Nil.prems(1) i rs r by simp
  qed
next
  case (Cons i order)
  show ?case
  proof (cases "i < length tasks")
    case False
    then show ?thesis using Cons by simp
  next
    case True
    show ?thesis
    proof (cases "tasks ! i")
      case (Returned r)
      have "gather tasks order (slots[i := Some r]) = Returned rs"
        using Cons.prems(3) True Returned by simp
      moreover have "\<forall>j<length tasks. \<forall>r'. slots[i := Some r] ! j = Some r' \<longrightarrow> tasks ! j = Returned r'"
      proof (intro allI impI)
        fix j r' assume j: "j < length tasks" and s: "slots[i := Some r] ! j = Some r'"
        show "tasks ! j = Returned r'"
        proof (cases "j = i")
          case True
          then show ?thesis using s j Cons.prems(1) Returned by simp
        next
          case False
          then have "slots ! j = Some r'" using s by simp
          then show ?thesis using j Cons.prems(2) by blast
        qed
      qed
      ultimately show ?thesis using Cons.IH [of "slots[i := Some r]"] Cons.prems(1) by simp
    next
      case (Raised e)
      then show ?thesis using Cons.prems(3) True by simp
    next
      case Pending
      then show ?thesis using Cons True by simp
    qed
  qed
qed

lemma gather_returns:
  "length slots = length tasks \<Longrightarrow>
   (\<forall>i<length tasks. \<exists>r. tasks ! i = Returned r) \<Longrightarrow>
   (\<forall>i<length tasks. slots ! i \<noteq> None \<or> i \<in> set order) \<Longrightarrow>
   \<exists>rs. gather tasks order slots = Returned rs"
proof (induction order arbitrary: slots)
  case Nil
  then have "list_all (\<lambda>slot. slot \<noteq> None) slots" by (simp add: list_all_length)
  then show ?case by simp
next
  case (Cons i order)
  show ?case
  proof (cases "i < length tasks")
    case False
    then have "\<forall>j<length tasks. slots ! j \<noteq> None \<or> j \<in> set order"
      using Cons.prems(3) by auto
    then show ?thesis using Cons.IH [of slots] Cons.prems(1,2) False by simp
  next
    case True
    then obtain r where r: "tasks ! i = Returned r" using Cons.prems(2) by blast
    have "\<forall>j<length tasks. slots[i := Some r] ! j \<noteq> None \<or> j \<in> set order"
    proof (intro allI impI)
      fix j assume j: "j < length tasks"
      show "slots[i := Some r] ! j \<noteq> None \<or> j \<in> set order"
      proof (cases "j = i")
        case True
        then show ?thesis using j Cons.prems(1) by simp
      next
        case False
        then show ?thesis using j Cons.prems(3) by auto
      qed
    qed
    then show ?thesis using Cons.IH [of "slots[i := Some r]"] Cons.prems(1,2) True r by simp
  qed
qed


lemma run_commands_async_fst:
  "fst (run_commands_async os order commands st) =
     gather (fst (start_tasks os 0 commands st)) order
       (replicate (length (fst (start_tasks os 0 commands st))) None)"
  by (simp add: run_commands_async_def split: prod.split)

lemma run_commands_async_snd:
  "snd (run_commands_async os order commands st) = snd (start_tasks os 0 commands st)"
  by (simp add: run_commands_async_def split: prod.split)

lemma run_commands_async_tasks:
  assumes "fst (run_commands_async os order commands st) = Returned rs"
  shows "length rs = length commands"
    and "i < length commands \<Longrightarrow>
           \<exists>st'. results_dict st' = results_dict st \<and>
                 fst (run_command_async os i (commands ! i) st') = Returned (rs ! i)"
proof -
  let ?tasks = "fst (start_tasks os 0 commands st)"
  have g: "gather ?tasks order (replicate (length ?tasks) None) = Returned rs"
    using assms by (simp add: run_commands_async_fst)
  have m: "map Returned rs = ?tasks"
    by (rule gather_Returned [OF _ _ g]) simp_all
  then have "length (map Returned rs) = length commands"
    by (simp add: start_tasks_length)
  then show len: "length rs = length commands" by simp
  assume i: "i < length commands"
  then obtain st' where "results_dict st' = results_dict st"
    "?tasks ! i = fst (run_command_async os (0 + i) (commands ! i) st')"
    using start_tasks_nth by blast
  moreover have "?tasks ! i = Returned (rs ! i)"
    using m i len by (metis nth_map)
  ultimately show "\<exists>st'. results_dict st' = results_dict st \<and>
                 fst (run_command_async os i (commands ! i) st') = Returned (rs ! i)"
    by (intro exI [of _ st']) simp
qed

lemma run_commands_async_returns:
  assumes "{..<length commands} \<subseteq> set order"
    and "\<forall>i<length commands. commands ! i \<in> set (map fst (results_dict st)) \<or> (\<exists>rc. os i (commands ! i) = Exit rc)"
  shows "\<exists>rs. fst (run_commands_async os order commands st) = Returned rs"
proof -
  let ?tasks = "fst (start_tasks os 0 commands st)"
  have "\<forall>i<length ?tasks. \<exists>r. ?tasks ! i = Returned r"
  proof (intro allI impI)
    fix i assume "i < length ?tasks"
    then have i: "i < length commands" by (simp add: start_tasks_length)
    then obtain st' where d: "results_dict st' = results_dict st"
      and t: "?tasks ! i = fst (run_command_async os (0 + i) (commands ! i) st')"
      using start_tasks_nth by blast
    have "\<exists>r. fst (run_command_async os i (commands ! i) st') = Returned r"
      using assms(2) i d by (auto simp: run_command_async_def)
    then show "\<exists>r. ?tasks ! i = Returned r" using t by simp
  qed
  moreover have "\<forall>i<length ?tasks. replicate (length ?tasks) None ! i \<noteq> None \<or> i \<in> set order"
    using assms(1) by (auto simp: start_tasks_length)
  ultimately have "\<exists>rs. gather ?tasks order (replicate (length ?tasks) None) = Returned rs"
    by (intro gather_returns) simp_all
  then show ?thesis by (simp add: run_commands_async_fst)
qed

lemma run_command_async_outcome:
  "fst (run_command_async os i c st) = Returned r \<Longrightarrow>
     (snd r = PyStr ''SKIPPED'' \<and> c \<in> set (map fst (results_dict st))) \<or>
     ((snd r = PyBool True \<or> snd r = PyBool False) \<and> c \<notin> set (map fst (results_dict st)))"
  by (auto simp: run_command_async_def split: proc_result.splits if_splits)

lemma run_command_async_result:
  "fst (run_command_async os i c st) = Returned r \<Longrightarrow>
     (c \<in> set (map fst (results_dict st)) \<and> r = (c, PyStr ''SKIPPED''))
     \<or> (c \<notin> set (map fst (results_dict st))
          \<and> (\<exists>returncode. os i c = Exit returncode \<and> r = (c, PyBool (returncode \<noteq> 0))))"
  by (auto simp: run_command_async_def split: proc_result.splits if_splits)

lemma run_command_async_spawned:
  "fst (run_command_async os i c st) = Returned r \<Longrightarrow>
     spawned (snd (run_command_async os i c st)) =
       spawned st @ (if c \<in> set (map fst (results_dict st)) then [] else [c])"
  by (auto simp: run_command_async_def split: proc_result.splits if_splits)

lemma start_tasks_spawned:
  "\<forall>t \<in> set (fst (start_tasks os i cs st)). \<exists>r. t = Returned r \<Longrightarrow>
     spawned (snd (start_tasks os i cs st)) =
       spawned st @ filter (\<lambda>c. c \<notin> set (map fst (results_dict st))) cs"
proof (induction cs arbitrary: i st)
  case Nil
  show ?case by simp
next
  case (Cons c cs)
  let ?st1 = "snd (run_command_async os i c st)"
  from Cons.prems obtain r where r: "fst (run_command_async os i c st) = Returned r"
    by (auto simp: start_tasks_Cons simp del: start_tasks.simps(2))
  have "\<forall>t \<in> set (fst (start_tasks os (Suc i) cs ?st1)). \<exists>r. t = Returned r"
    using Cons.prems by (simp add: start_tasks_Cons del: start_tasks.simps(2))
  then have "spawned (snd (start_tasks os (Suc i) cs ?st1)) =
       spawned ?st1 @ filter (\<lambda>c. c \<notin> set (map fst (results_dict ?st1))) cs"
    by (rule Cons.IH)
  then show ?case
    using run_command_async_spawned [OF r]
    by (simp add: start_tasks_Cons run_command_async_frame del: start_tasks.simps(2))
qed


section \<open>Facts about the orchestrator\<close>

lemma dict_set_values: "snd ` set (dict_set d k v) \<subseteq> insert v (snd ` set d)"
  by (induction d k v rule: dict_set.induct) auto

lemma scrub_lines_snd_Cons:
  "snd (scrub_lines db (l # ls) st) =
     (case scrub_line db (strip l) of
        Inl e \<Rightarrow> st\<lparr>scrubbed := scrubbed st @ [strip l]\<rparr>
      | Inr (line, skip_ctl) \<Rightarrow>
          snd (scrub_lines db ls
                 (if skip_ctl
                  then st\<lparr>scrubbed := scrubbed st @ [strip l],
                          results_dict := dict_set (results_dict st) line ''SKIPPED''\<rparr>
                  else st\<lparr>scrubbed := scrubbed st @ [strip l]\<rparr>)))"
  by (simp add: Let_def split: sum.split prod.split)

lemma scrub_lines_values:
  "snd ` set (results_dict (snd (scrub_lines db ls st)))
     \<subseteq> insert ''SKIPPED'' (snd ` set (results_dict st))"
proof (induction ls arbitrary: st)
  case Nil
  show ?case by auto
next
  case (Cons l ls)
  show ?case
  proof (cases "scrub_line db (strip l)")
    case (Inl e)
    then show ?thesis by (auto simp: scrub_lines_snd_Cons simp del: scrub_lines.simps(2))
  next
    case (Inr p)
    obtain line skip_ctl where p: "p = (line, skip_ctl)" by (cases p)
    let ?st = "if skip_ctl
               then st\<lparr>scrubbed := scrubbed st @ [strip l],
                       results_dict := dict_set (results_dict st) line ''SKIPPED''\<rparr>
               else st\<lparr>scrubbed := scrubbed st @ [strip l]\<rparr>"
    have "snd ` set (results_dict ?st) \<subseteq> insert ''SKIPPED'' (snd ` set (results_dict st))"
      using dict_set_values [of "results_dict st" line "''SKIPPED''"] by auto
    moreover have "snd ` set (results_dict (snd (scrub_lines db ls ?st)))
                     \<subseteq> insert ''SKIPPED'' (snd ` set (results_dict ?st))"
      by (rule Cons.IH)
    moreover have "snd (scrub_lines db (l # ls) st) = snd (scrub_lines db ls ?st)"
      using Inr p by (simp add: scrub_lines_snd_Cons del: scrub_lines.simps(2))
    ultimately show ?thesis by (simp only:) blast
  qed
qed

lemma scrub_lines_spawned: "spawned (snd (scrub_lines db ls st)) = spawned st"
proof (induction ls arbitrary: st)
  case Nil
  show ?case by simp
next
  case (Cons l ls)
  show ?case
    by (simp add: scrub_lines_snd_Cons Cons.IH split: sum.split prod.split del: scrub_lines.simps(2))
qed

lemma record_result_values:
  "snd r \<noteq> PyNone \<Longrightarrow>
     snd ` set (results_dict (record_result r st))
       \<subseteq> {''FAILURE'', ''SUCCESS''} \<union> snd ` set (results_dict st)"
  using dict_set_values [of "results_dict st" "fst r" "''FAILURE''"]
        dict_set_values [of "results_dict st" "fst r" "''SUCCESS''"]
  by (cases r) (auto simp: record_result_def)

lemma fold_record_result_values:
  "\<forall>r \<in> set rs. snd r \<noteq> PyNone \<Longrightarrow>
     snd ` set (results_dict (fold record_result rs st))
       \<subseteq> {''FAILURE'', ''SUCCESS''} \<union> snd ` set (results_dict st)"
proof (induction rs arbitrary: st)
  case Nil
  show ?case by auto
next
  case (Cons r rs)
  have "snd ` set (results_dict (fold record_result rs (record_result r st)))
          \<subseteq> {''FAILURE'', ''SUCCESS''} \<union> snd ` set (results_dict (record_result r st))"
    using Cons.prems by (intro Cons.IH) simp
  moreover have "snd ` set (results_dict (record_result r st))
       \<subseteq> {''FAILURE'', ''SUCCESS''} \<union> snd ` set (results_dict st)"
    using Cons.prems by (intro record_result_values) simp
  ultimately show ?case by (simp only: fold_simps) blast
qed

lemma fold_record_result_spawned: "spawned (fold record_result rs st) = spawned st"
  by (induction rs arbitrary: st) (auto simp: record_result_def split: prod.split)

lemma fold_record_result_scrubbed: "scrubbed (fold record_result rs st) = scrubbed st"
  by (induction rs arbitrary: st) (auto simp: record_result_def split: prod.split)



text \<open>The main program, by the stage at which the run ends.\<close>

lemma main_usage:
  "length argv \<notin> set [2, 3] \<or> (current_user_is_production env \<and> length argv < 3) \<Longrightarrow>
     main env argv = (Returned 1, initial_state)"
  by (auto simp: main_def Let_def)

lemma main_bad_path:
  "\<not> (length argv \<notin> set [2, 3] \<or> (current_user_is_production env \<and> length argv < 3)) \<Longrightarrow>
   \<not> path_exists env (dirname (argv ! 1)) \<Longrightarrow>
     main env argv = (Returned 1, initial_state)"
  by (auto simp: main_def Let_def)

lemma main_no_file:
  "\<not> (length argv \<notin> set [2, 3] \<or> (current_user_is_production env \<and> length argv < 3)) \<Longrightarrow>
   path_exists env (dirname (argv ! 1)) \<Longrightarrow>
   readlines env (argv ! 1) = None \<Longrightarrow>
     main env argv = (Raised OSError, initial_state)"
  by (auto simp: main_def Let_def)

lemma main_batch:
  "\<not> (length argv \<notin> set [2, 3] \<or> (current_user_is_production env \<and> length argv < 3)) \<Longrightarrow>
   path_exists env (dirname (argv ! 1)) \<Longrightarrow>
   readlines env (argv ! 1) = Some file_lines \<Longrightarrow>
     main env argv =
       (case scrub_lines (mssql_query env) (filter check_valid_line file_lines) initial_state of
          (Inl e, st) \<Rightarrow> (Raised e, st)
        | (Inr lines, st) \<Rightarrow>
            (case run_commands_async (subprocess env) (completion_order env) lines st of
               (Raised e, st) \<Rightarrow> (Raised e, st)
             | (Pending, st) \<Rightarrow> (Pending, st)
             | (Returned result_tuples, st) \<Rightarrow>
                 (let st = fold record_result result_tuples st
                  in if failure_count st > 0
                     then (case report env (results_dict st) of
                             Inl e \<Rightarrow> (Raised e, st)
                           | Inr notes \<Rightarrow> (Returned 0, st\<lparr>logfile_notes := notes\<rparr>))
                     else (Returned 0, st))))"
  by (auto simp: main_def Let_def)

lemma main_values:
  "snd ` set (results_dict (snd (main env argv))) \<subseteq> {''SKIPPED'', ''FAILURE'', ''SUCCESS''}"
proof (cases "length argv \<notin> set [2, 3] \<or> (current_user_is_production env \<and> length argv < 3)")
  case True
  then show ?thesis using main_usage [of argv env] by (simp add: initial_state_def)
next
  case args: False
  show ?thesis
  proof (cases "path_exists env (dirname (argv ! 1))")
    case False
    then show ?thesis using main_bad_path [OF args] by (simp add: initial_state_def)
  next
    case path: True
    show ?thesis
    proof (cases "readlines env (argv ! 1)")
      case None
      then show ?thesis using main_no_file [OF args path] by (simp add: initial_state_def)
    next
      case (Some file_lines)
      let ?scrub = "scrub_lines (mssql_query env) (filter check_valid_line file_lines) initial_state"
      have m: "main env argv =
       (case ?scrub of
          (Inl e, st) \<Rightarrow> (Raised e, st)
        | (Inr lines, st) \<Rightarrow>
            (case run_commands_async (subprocess env) (completion_order env) lines st of
               (Raised e, st) \<Rightarrow> (Raised e, st)
             | (Pending, st) \<Rightarrow> (Pending, st)
             | (Returned result_tuples, st) \<Rightarrow>
                 (let st = fold record_result result_tuples st
                  in if failure_count st > 0
                     then (case report env (results_dict st) of
                             Inl e \<Rightarrow> (Raised e, st)
                           | Inr notes \<Rightarrow> (Returned 0, st\<lparr>logfile_notes := notes\<rparr>))
                     else (Returned 0, st))))"
        using args path Some by (rule main_batch)
      obtain res st1 where s: "?scrub = (res, st1)" by (cases ?scrub)
      have v1: "snd ` set (results_dict st1) \<subseteq> {''SKIPPED''}"
        using scrub_lines_values [of "mssql_query env" "filter check_valid_line file_lines" initial_state] s
        by (simp add: initial_state_def)
      show ?thesis
      proof (cases res)
        case (Inl e)
        then show ?thesis using m s v1 by auto
      next
        case (Inr lines)
        let ?run = "run_commands_async (subprocess env) (completion_order env) lines st1"
        obtain out st2 where r: "?run = (out, st2)" by (cases ?run)
        have d2: "results_dict st2 = results_dict st1"
          using run_commands_async_snd [of "subprocess env" "completion_order env" lines st1]
                start_tasks_frame [of "subprocess env" 0 lines st1] r by simp
        show ?thesis
        proof (cases out)
          case (Raised e)
          then show ?thesis using m s Inr r d2 v1 by auto
        next
          case Pending
          then show ?thesis using m s Inr r d2 v1 by auto
        next
          case (Returned rs)
          have "fst ?run = Returned rs" using r Returned by simp
          then obtain "length rs = length lines" and
            nth: "\<And>i. i < length lines \<Longrightarrow> \<exists>st'. fst (run_command_async (subprocess env) i (lines ! i) st') = Returned (rs ! i)"
            using run_commands_async_tasks by blast
          have "\<forall>r \<in> set rs. snd r \<noteq> PyNone"
          proof
            fix x assume "x \<in> set rs"
            then obtain i where "i < length rs" "rs ! i = x" by (auto simp: in_set_conv_nth)
            then obtain st' where "fst (run_command_async (subprocess env) i (lines ! i) st') = Returned x"
              using nth \<open>length rs = length lines\<close> by metis
            then show "snd x \<noteq> PyNone" using run_command_async_Returned by blast
          qed
          then have "snd ` set (results_dict (fold record_result rs st2))
                       \<subseteq> {''FAILURE'', ''SUCCESS''} \<union> snd ` set (results_dict st2)"
            by (rule fold_record_result_values)
          then have v3: "snd ` set (results_dict (fold record_result rs st2))
                       \<subseteq> {''SKIPPED'', ''FAILURE'', ''SUCCESS''}"
            using v1 d2 by auto
          have "snd (main env argv) = fold record_result rs st2
                \<or> (\<exists>notes. snd (main env argv) = (fold record_result rs st2)\<lparr>logfile_notes := notes\<rparr>)"
            using m s Inr r Returned by (auto simp: Let_def split: sum.split)
          then have "results_dict (snd (main env argv)) = results_dict (fold record_result rs st2)"
            by auto
          then show ?thesis using v3 by simp
        qed
      qed
    qed
  qed
qed

section \<open>Order of the results\<close>

text \<open>
  C2: whatever the order in which the tasks complete, a list returned by
  \<open>run_commands_async\<close> is aligned with the input: it has one pair for each command, the
  pair at position \<open>i\<close> names the command at position \<open>i\<close> of the input, and its outcome
  is the outcome of the task at position \<open>i\<close>, that is \<open>'SKIPPED'\<close> when the command is a
  key of the results map, and otherwise whether the subprocess of that task exited with
  a status other than 0. The call does return when every task completes: the completion
  order mentions every task, and every command that is not skipped has a subprocess that
  exits.
\<close>

theorem run_commands_async_input_order:
  "(\<forall>rs. fst (run_commands_async os order commands st) = Returned rs \<longrightarrow>
          map fst rs = commands
          \<and> length rs = length commands
          \<and> (\<forall>i<length commands.
                (commands ! i \<in> set (map fst (results_dict st))
                   \<and> rs ! i = (commands ! i, PyStr ''SKIPPED''))
                \<or> (commands ! i \<notin> set (map fst (results_dict st))
                     \<and> (\<exists>returncode. os i (commands ! i) = Exit returncode
                            \<and> rs ! i = (commands ! i, PyBool (returncode \<noteq> 0))))))
   \<and> ({..<length commands} \<subseteq> set order
        \<and> (\<forall>i<length commands. commands ! i \<in> set (map fst (results_dict st))
                                  \<or> (\<exists>rc. os i (commands ! i) = Exit rc))
      \<longrightarrow> (\<exists>rs. fst (run_commands_async os order commands st) = Returned rs))"
proof (intro conjI allI impI)
  fix rs assume r: "fst (run_commands_async os order commands st) = Returned rs"
  show len: "length rs = length commands" by (rule run_commands_async_tasks(1) [OF r])
  show "map fst rs = commands"
  proof (rule nth_equalityI)
    show "length (map fst rs) = length commands" using len by simp
  next
    fix i assume "i < length (map fst rs)"
    then have i: "i < length commands" using len by simp
    then obtain st' where "fst (run_command_async os i (commands ! i) st') = Returned (rs ! i)"
      using run_commands_async_tasks(2) [OF r] by blast
    then have "fst (rs ! i) = commands ! i" using run_command_async_Returned by blast
    then show "map fst rs ! i = commands ! i" using i len by simp
  qed
  fix i assume i: "i < length commands"
  then obtain st' where d: "results_dict st' = results_dict st"
    and t: "fst (run_command_async os i (commands ! i) st') = Returned (rs ! i)"
    using run_commands_async_tasks(2) [OF r] by blast
  show "(commands ! i \<in> set (map fst (results_dict st))
           \<and> rs ! i = (commands ! i, PyStr ''SKIPPED''))
        \<or> (commands ! i \<notin> set (map fst (results_dict st))
             \<and> (\<exists>returncode. os i (commands ! i) = Exit returncode
                    \<and> rs ! i = (commands ! i, PyBool (returncode \<noteq> 0))))"
    using run_command_async_result [OF t] d by simp
next
  assume "{..<length commands} \<subseteq> set order
        \<and> (\<forall>i<length commands. commands ! i \<in> set (map fst (results_dict st))
                                  \<or> (\<exists>rc. os i (commands ! i) = Exit rc))"
  then show "\<exists>rs. fst (run_commands_async os order commands st) = Returned rs"
    using run_commands_async_returns by blast
qed

theorem run_commands_async_input_order_witness:
  "\<exists>rs. fst (run_commands_async first_fails [1, 0] [''x'', ''x''] initial_state) = Returned rs
        \<and> rs ! 0 = (''x'', PyBool True) \<and> rs ! 1 = (''x'', PyBool False)"
proof -
  let ?cs = "[''x'', ''x'']"
  note t = run_commands_async_input_order [of first_fails "[1, 0]" ?cs initial_state]
  have "{..<length ?cs} \<subseteq> set [1, 0 :: nat]" by auto
  moreover have "\<forall>i<length ?cs. ?cs ! i \<in> set (map fst (results_dict initial_state))
                                  \<or> (\<exists>rc. first_fails i (?cs ! i) = Exit rc)"
    by (simp add: first_fails_def)
  ultimately obtain rs where
    r: "fst (run_commands_async first_fails [1, 0] ?cs initial_state) = Returned rs"
    using t by blast
  then have a: "\<forall>i<length ?cs.
                (?cs ! i \<in> set (map fst (results_dict initial_state))
                   \<and> rs ! i = (?cs ! i, PyStr ''SKIPPED''))
                \<or> (?cs ! i \<notin> set (map fst (results_dict initial_state))
                     \<and> (\<exists>returncode. first_fails i (?cs ! i) = Exit returncode
                            \<and> rs ! i = (?cs ! i, PyBool (returncode \<noteq> 0))))"
    using t by blast
  have "rs ! 0 = (''x'', PyBool True)"
    using a [rule_format, of 0] by (auto simp: first_fails_def initial_state_def)
  moreover have "rs ! 1 = (''x'', PyBool False)"
    using a [rule_format, of 1] by (auto simp: first_fails_def initial_state_def)
  ultimately show ?thesis using r by blast
qed


section \<open>Skipping and spawning\<close>

text \<open>
  C1, as claimed, fails: in the sample run the batch holds the job code \<open>abcd\<close> twice, both
  lines normalize to the same command, the command is spawned twice and nothing is
  skipped.
\<close>

theorem duplicate_is_run_again:
  "spawned (snd (main sample_env [''run_bulk_jobs.py'', ''/tmp/jobs.txt'']))
     = [''/NAS/mis/esp/scripts/praaabcd.ctl'', ''/NAS/mis/esp/scripts/praaabcd.ctl'']
   \<and> skipped_count (snd (main sample_env [''run_bulk_jobs.py'', ''/tmp/jobs.txt''])) = 0"
  by code_simp

text \<open>
  C1, amended: the executor reports \<open>'SKIPPED'\<close> for exactly the commands that are keys of
  the results map it is given (the excluded lines the orchestrator seeded), and creates
  one subprocess for every other element of the batch, repeated commands included.
\<close>

theorem skipped_iff_seeded:
  assumes "fst (run_commands_async os order commands st) = Returned rs"
  shows "(\<forall>i<length commands.
            (snd (rs ! i) = PyStr ''SKIPPED'') = (commands ! i \<in> set (map fst (results_dict st))))
         \<and> spawned (snd (run_commands_async os order commands st)) =
             spawned st @ filter (\<lambda>c. c \<notin> set (map fst (results_dict st))) commands"
proof (intro conjI allI impI)
  fix i assume "i < length commands"
  then obtain st' where "results_dict st' = results_dict st"
    "fst (run_command_async os i (commands ! i) st') = Returned (rs ! i)"
    using run_commands_async_tasks(2) [OF assms] by blast
  then show "(snd (rs ! i) = PyStr ''SKIPPED'') = (commands ! i \<in> set (map fst (results_dict st)))"
    using run_command_async_outcome [of os i "commands ! i" st' "rs ! i"] by auto
next
  let ?tasks = "fst (start_tasks os 0 commands st)"
  have "gather ?tasks order (replicate (length ?tasks) None) = Returned rs"
    using assms by (simp add: run_commands_async_fst)
  then have "map Returned rs = ?tasks"
    by (intro gather_Returned [where order = order and slots = "replicate (length ?tasks) None"]) simp_all
  then have "\<forall>t \<in> set ?tasks. \<exists>r. t = Returned r" by (metis ex_map_conv)
  then show "spawned (snd (run_commands_async os order commands st)) =
             spawned st @ filter (\<lambda>c. c \<notin> set (map fst (results_dict st))) commands"
    by (simp add: run_commands_async_snd start_tasks_spawned)
qed

theorem skipped_iff_seeded_witness:
  "snd ([(''ls'', PyBool False), (''ls'', PyBool False)] ! 1) \<noteq> PyStr ''SKIPPED''
   \<and> spawned (snd (run_commands_async all_succeed [0, 1] [''ls'', ''ls''] initial_state)) = [''ls'', ''ls'']"
proof -
  have r: "fst (run_commands_async all_succeed [0, 1] [''ls'', ''ls''] initial_state)
          = Returned [(''ls'', PyBool False), (''ls'', PyBool False)]"
    by (simp add: run_commands_async_def run_command_async_def all_succeed_def initial_state_def)
  show ?thesis using skipped_iff_seeded [OF r] by (simp add: initial_state_def)
qed


section \<open>The results map is only read by the executor\<close>

text \<open>
  C10: \<open>run_command_async\<close> and \<open>run_commands_async\<close> leave \<open>results_dict\<close> as it was.
  When the executor is run on the state the normalization loop leaves, every entry of the
  map at the join is a \<open>SKIPPED\<close> entry seeded before the call: the entries \<open>SUCCESS\<close>,
  \<open>FAILURE\<close> and \<open>LONGRUN\<close> are written by the orchestrator afterwards.
\<close>

theorem executor_frame:
  "results_dict (snd (run_command_async os i command st)) = results_dict st
   \<and> results_dict (snd (run_commands_async os order commands st)) = results_dict st
   \<and> snd ` set (results_dict (snd (run_commands_async os order commands
                                      (snd (scrub_lines db raw_lines initial_state)))))
        \<subseteq> {''SKIPPED''}"
  using scrub_lines_values [of db raw_lines initial_state]
  by (simp add: run_command_async_frame run_commands_async_snd start_tasks_frame initial_state_def)


section \<open>No command is marked LONGRUN\<close>

text \<open>
  C5: every outcome in a list returned by the executor is \<open>True\<close>, \<open>False\<close> or
  \<open>'SKIPPED'\<close>, never \<open>None\<close>, and no run of the main program leaves a \<open>LONGRUN\<close> entry in
  the results map.
\<close>

theorem no_longrun:
  "(\<forall>rs. fst (run_commands_async os order commands st) = Returned rs \<longrightarrow>
          (\<forall>r \<in> set rs. snd r = PyBool True \<or> snd r = PyBool False \<or> snd r = PyStr ''SKIPPED''))
   \<and> ''LONGRUN'' \<notin> snd ` set (results_dict (snd (main env argv)))"
proof (intro conjI allI impI ballI)
  fix rs r
  assume ret: "fst (run_commands_async os order commands st) = Returned rs" and "r \<in> set rs"
  then obtain i where i: "i < length rs" and ri: "rs ! i = r" by (auto simp: in_set_conv_nth)
  then have "i < length commands" using run_commands_async_tasks(1) [OF ret] by simp
  then obtain st' where "fst (run_command_async os i (commands ! i) st') = Returned (rs ! i)"
    using run_commands_async_tasks(2) [OF ret] by blast
  then show "snd r = PyBool True \<or> snd r = PyBool False \<or> snd r = PyStr ''SKIPPED''"
    using run_command_async_outcome [of os i "commands ! i" st' "rs ! i"] ri by auto
next
  show "''LONGRUN'' \<notin> snd ` set (results_dict (snd (main env argv)))"
    using main_values [of env argv] by auto
qed

theorem no_longrun_witness:
  "fst (run_commands_async all_succeed [0] [''ls''] initial_state) = Returned [(''ls'', PyBool False)]
   \<and> (snd (''ls'', PyBool False) = PyBool True \<or> snd (''ls'', PyBool False) = PyBool False
        \<or> snd (''ls'', PyBool False) = PyStr ''SKIPPED'')
   \<and> ''LONGRUN'' \<notin> snd ` set (results_dict (snd (main sample_env [''run_bulk_jobs.py'', ''/tmp/jobs.txt''])))"
proof -
  have r: "fst (run_commands_async all_succeed [0] [''ls''] initial_state) = Returned [(''ls'', PyBool False)]"
    by (simp add: run_commands_async_def run_command_async_def all_succeed_def initial_state_def)
  then show ?thesis
    using no_longrun [of all_succeed "[0]" "[''ls'']" initial_state sample_env
                         "[''run_bulk_jobs.py'', ''/tmp/jobs.txt'']"]
    by simp
qed


section \<open>Malformed invocations\<close>

text \<open>
  C9: with a wrong number of arguments, with a production user and no Jira request, with
  an input file whose directory does not exist or with an input file that cannot be
  opened, the process ends with exit status 1, before any line is normalized and before
  any subprocess is created.
\<close>

theorem malformed_invocation_exits:
  assumes "length argv \<notin> {2, 3}
           \<or> (current_user_is_production env \<and> length argv < 3)
           \<or> \<not> path_exists env (dirname (argv ! 1))
           \<or> readlines env (argv ! 1) = None"
  shows "exit_status (fst (main env argv)) = Some 1
         \<and> scrubbed (snd (main env argv)) = []
         \<and> spawned (snd (main env argv)) = []"
proof (cases "length argv \<notin> set [2, 3] \<or> (current_user_is_production env \<and> length argv < 3)")
  case True
  then show ?thesis using main_usage [of argv env] by (simp add: exit_status_def initial_state_def)
next
  case args: False
  show ?thesis
  proof (cases "path_exists env (dirname (argv ! 1))")
    case False
    then show ?thesis using main_bad_path [OF args] by (simp add: exit_status_def initial_state_def)
  next
    case True
    moreover have "readlines env (argv ! 1) = None" using assms args True by auto
    ultimately show ?thesis
      using main_no_file [OF args] by (simp add: exit_status_def initial_state_def)
  qed
qed

theorem malformed_invocation_exits_witness:
  "exit_status (fst (main sample_env [''run_bulk_jobs.py'', ''/tmp/missing.txt''])) = Some 1
   \<and> scrubbed (snd (main sample_env [''run_bulk_jobs.py'', ''/tmp/missing.txt''])) = []
   \<and> spawned (snd (main sample_env [''run_bulk_jobs.py'', ''/tmp/missing.txt''])) = []"
proof -
  have "readlines sample_env ([''run_bulk_jobs.py'', ''/tmp/missing.txt''] ! 1) = None"
    by (simp add: sample_env_def)
  then show ?thesis
    using malformed_invocation_exits [of "[''run_bulk_jobs.py'', ''/tmp/missing.txt'']" sample_env]
    by blast
qed


section \<open>The command normalizer\<close>

text \<open>
  C3 does not hold of the code: a line that mentions a \<open>.ctl\<close> file that is not under
  \<open>/NAS/mis/esp/scripts/praa\<close> makes \<open>scrub_line\<close> raise \<open>IndexError\<close> at the subscript
  \<open>[1]\<close>, and the normalization loop of the batch ends with that exception.
\<close>

theorem scrub_line_raises:
  "scrub_line db ''sh /tmp/job.ctl'' = Inl IndexError
   \<and> fst (scrub_lines db [''sh /tmp/job.ctl\<newline>'', ''ls\<newline>''] st) = Inl IndexError"
  by (simp add: scrub_line_def isalnum_def startswith_def endswith_def index_def split_def
        strip_def isspace_def)

text \<open>
  C6 does not hold of the code: \<open>line.replace("./", "")\<close> removes the marker wherever it
  occurs, so a command that runs a script of the current directory loses the marker in
  the middle of the line.
\<close>

theorem scrub_line_strips_inner_marker:
  "scrub_line db ''cd /tmp && ./go.sh'' = Inr (''cd /tmp && go.sh'', False)"
  by (simp add: scrub_line_def isalnum_def startswith_def endswith_def index_def split_def)

text \<open>
  C7, as claimed, fails: \<open>./test\<close> normalizes to \<open>test\<close>, a four-character code, which
  normalizes to the path of a descriptor file.
\<close>

theorem scrub_line_not_idempotent:
  "scrub_line no_rows ''./test'' = Inr (''test'', False)
   \<and> scrub_line no_rows ''test'' = Inr (''/NAS/mis/esp/scripts/praatest.ctl'', False)"
  by (simp add: scrub_line_def isalnum_def isalnum_char_def startswith_def endswith_def
        index_def split_def)

text \<open>
  C7, amended: when a line \<open>x\<close> normalizes to \<open>(y, False)\<close> without the database lookup
  (it does so even when the database cannot be reached), and \<open>y\<close> contains no \<open>./\<close> and
  is not a four-character alphanumeric code, then \<open>x\<close> normalizes to \<open>(y, False)\<close> with
  every database and \<open>y\<close> normalizes to itself, \<open>(y, False)\<close>.
\<close>

theorem scrub_line_idempotent:
  assumes x: "scrub_line offline x = Inr (y, False)"
    and no_marker: "\<not> str_in ''./'' y"
    and no_code: "\<not> (length y = 4 \<and> isalnum y)"
  shows "scrub_line db x = Inr (y, False) \<and> scrub_line db y = Inr (y, False)"
proof -
  define path where "path = (\<lambda>z :: string.
     let line = (if length z = 4 \<and> isalnum z then ''praa'' @ z @ ''.ctl'' else z);
         line = replace line ''./'' ''''
     in if startswith line ''praa''
        then ''/NAS/mis/esp/scripts/'' @ line @ (if endswith line ''.ctl'' then '''' else ''.ctl'')
        else line)"
  define look where "look = (\<lambda>(mssql_query :: string \<Rightarrow> db_result) (original_line :: string) line.
     if str_in ''.ctl'' line
     then (case index (split line ''/NAS/mis/esp/scripts/praa'') 1 of
             Inl e \<Rightarrow> Inl e
           | Inr rest \<Rightarrow>
               (case index rest 1 of
                  Inl e \<Rightarrow> Inl e
                | Inr c \<Rightarrow>
                    if c = CHR ''i''
                    then (case get_srg_runjob_command mssql_query line of
                            None \<Rightarrow> Inr (original_line, True)
                          | Some line \<Rightarrow>
                              if line = [] then Inr (original_line, True)
                              else Inr (line, False))
                    else Inr (line, False)))
     else Inr (line, False))"
  have unfold: "scrub_line d z = look d z (path z)" for d z
    unfolding scrub_line_def look_def path_def Let_def by (rule refl)
  have offline: "get_srg_runjob_command offline l = None" for l
    by (simp add: get_srg_runjob_command_def offline_def)
  have lx: "look offline x (path x) = Inr (y, False)" using x by (simp only: unfold)
  have "y = path x \<and> (\<forall>d z. look d z (path x) = Inr (path x, False))"
  proof (cases "str_in ''.ctl'' (path x)")
    case False
    then show ?thesis using lx by (simp add: look_def)
  next
    case ctl: True
    show ?thesis
    proof (cases "index (split (path x) ''/NAS/mis/esp/scripts/praa'') 1")
      case (Inl e)
      then show ?thesis using lx ctl by (simp add: look_def)
    next
      case rest: (Inr rest)
      show ?thesis
      proof (cases "index rest 1")
        case (Inl e)
        then show ?thesis using lx ctl rest by (simp add: look_def)
      next
        case (Inr c)
        then show ?thesis using lx ctl rest by (cases "c = CHR ''i''") (simp_all add: look_def offline)
      qed
    qed
  qed
  then have y: "y = path x" and any: "look d z (path x) = Inr (path x, False)" for d z
    by simp_all
  have "\<not> startswith (path x) ''praa''"
    by (simp add: path_def Let_def startswith_def)
  then have not_praa: "\<not> startswith y ''praa''" using y by simp
  have 1: "(if length y = 4 \<and> isalnum y then ''praa'' @ y @ ''.ctl'' else y) = y"
    using no_code by (rule if_not_P)
  have 2: "replace y ''./'' [] = y" using no_marker by (rule replace_absent)
  have "path y = y" unfolding path_def Let_def 1 2 using not_praa by (rule if_not_P)
  then show ?thesis using any [of db x] any [of db y] y by (simp only: unfold)
qed


theorem scrub_line_idempotent_witness:
  "scrub_line no_rows ''1234'' = Inr (''/NAS/mis/esp/scripts/praa1234.ctl'', False)
   \<and> scrub_line no_rows ''/NAS/mis/esp/scripts/praa1234.ctl''
       = Inr (''/NAS/mis/esp/scripts/praa1234.ctl'', False)"
proof -
  have "scrub_line offline ''1234'' = Inr (''/NAS/mis/esp/scripts/praa1234.ctl'', False)"
    by (simp add: scrub_line_def isalnum_def isalnum_char_def startswith_def endswith_def
          index_def split_def)
  moreover have "\<not> str_in ''./'' ''/NAS/mis/esp/scripts/praa1234.ctl''"
    by (simp add: startswith_def)
  moreover have "\<not> (length ''/NAS/mis/esp/scripts/praa1234.ctl'' = 4
                     \<and> isalnum ''/NAS/mis/esp/scripts/praa1234.ctl'')"
    by simp
  ultimately show ?thesis by (rule scrub_line_idempotent)
qed


section \<open>The log resolver\<close>

lemma get_unix_command_output_strip:
  "get_unix_command_output env unix_cmd = Inr out \<Longrightarrow>
     \<exists>output. popen_output env unix_cmd = Inr output \<and> out = strip output"
  by (auto simp: get_unix_command_output_def strip_def split: sum.splits if_splits)

text \<open>The run command the resolver works on: the input, or its translation.\<close>

lemma try_run_command:
  assumes "get_runjob_logfile_try env runjob_cmd = Inr logfile"
  shows "\<exists>cmd. (if startswith runjob_cmd ''publish''
               then publish_to_runjob env runjob_cmd = Inr (Some cmd) \<and> cmd \<noteq> []
               else cmd = runjob_cmd)"
proof (cases "startswith runjob_cmd ''publish''")
  case False
  then show ?thesis by simp
next
  case True
  show ?thesis
  proof (cases "publish_to_runjob env runjob_cmd")
    case (Inl e)
    then show ?thesis using assms True by (simp add: get_runjob_logfile_try_def)
  next
    case (Inr r)
    then show ?thesis using assms True
      by (cases r) (simp_all add: get_runjob_logfile_try_def split: if_splits)
  qed
qed

lemma try_unfold:
  assumes "if startswith runjob_cmd ''publish''
           then publish_to_runjob env runjob_cmd = Inr (Some cmd) \<and> cmd \<noteq> []
           else cmd = runjob_cmd"
  shows "get_runjob_logfile_try env runjob_cmd =
          (case index (split_ws cmd) 1 of
             Inl e \<Rightarrow> Inl e
           | Inr word1 \<Rightarrow>
               (case index (split_ws cmd) 2 of
                  Inl e \<Rightarrow> Inl e
                | Inr identifier \<Rightarrow>
                    (if current_machine_is_production_server env \<and> word1 = ''srg''
                     then (case get_unix_command_output env
                                  (get_srg_name_command ''/NAS/mis/srg'' identifier) of
                             Inl e \<Rightarrow> Inl e
                           | Inr out \<Rightarrow>
                               (case index (split out ''/NAS/mis/srg/'') 1 of
                                  Inl e \<Rightarrow> Inl e
                                | Inr piece \<Rightarrow>
                                    Inr (''/NAS/mis/srg/'' @ [CHR 0x27] @ butlast piece
                                           @ [CHR 0x27] @ ''/logs/logfile.txt'')))
                     else if current_machine_is_production_server env
                     then (case index (split word1 ''_'') 1 of
                             Inl e \<Rightarrow> Inl e
                           | Inr piece1 \<Rightarrow>
                               get_unix_command_output env
                                 (logfile_command
                                    (''/NAS/mis/jobs/'' @ hd (split word1 ''_'') @ ''/'' @ piece1 @ ''/log'')
                                    identifier))
                     else get_unix_command_output env
                            (logfile_command
                               (if word1 = ''srg'' then ''/NAS/mis/tmp/_srg''
                                else ''/NAS/mis/tmp/_jobs/'' @ word1)
                               identifier))))"
proof (cases "startswith runjob_cmd ''publish''")
  case True
  then have "publish_to_runjob env runjob_cmd = Inr (Some cmd)" "cmd \<noteq> []" using assms by simp_all
  then show ?thesis using True
    by (simp add: get_runjob_logfile_try_def Let_def split: sum.split)
next
  case False
  then have "cmd = runjob_cmd" using assms by simp
  then show ?thesis using False
    by (simp add: get_runjob_logfile_try_def Let_def split: sum.split)
qed

lemma get_runjob_logfile_try_cases:
  assumes "get_runjob_logfile_try env runjob_cmd = Inr logfile"
  shows "\<exists>cmd word1 identifier.
           (if startswith runjob_cmd ''publish''
            then publish_to_runjob env runjob_cmd = Inr (Some cmd)
            else cmd = runjob_cmd)
           \<and> index (split_ws cmd) 1 = Inr word1
           \<and> index (split_ws cmd) 2 = Inr identifier
           \<and> (if current_machine_is_production_server env \<and> word1 = ''srg''
               then (\<exists>output piece.
                       popen_output env (get_srg_name_command ''/NAS/mis/srg'' identifier) = Inr output
                       \<and> index (split (strip output) ''/NAS/mis/srg/'') 1 = Inr piece
                       \<and> logfile = ''/NAS/mis/srg/'' @ [CHR 0x27] @ butlast piece @ [CHR 0x27]
                                     @ ''/logs/logfile.txt'')
               else (\<exists>base_dir output.
                       (if current_machine_is_production_server env
                        then (\<exists>piece1. index (split word1 ''_'') 1 = Inr piece1
                                \<and> base_dir = ''/NAS/mis/jobs/'' @ hd (split word1 ''_'') @ ''/''
                                               @ piece1 @ ''/log'')
                        else base_dir = (if word1 = ''srg'' then ''/NAS/mis/tmp/_srg''
                                         else ''/NAS/mis/tmp/_jobs/'' @ word1))
                       \<and> popen_output env (logfile_command base_dir identifier) = Inr output
                       \<and> logfile = strip output))"
proof -
  obtain cmd where cmd: "if startswith runjob_cmd ''publish''
               then publish_to_runjob env runjob_cmd = Inr (Some cmd) \<and> cmd \<noteq> []
               else cmd = runjob_cmd"
    using try_run_command [OF assms] by blast
  then have cmd': "if startswith runjob_cmd ''publish''
               then publish_to_runjob env runjob_cmd = Inr (Some cmd)
               else cmd = runjob_cmd"
    by (simp split: if_splits)
  note u = assms [unfolded try_unfold [OF cmd]]
  obtain word1 where w1: "index (split_ws cmd) 1 = Inr word1"
    using u by (cases "index (split_ws cmd) 1") simp_all
  obtain ident where w2: "index (split_ws cmd) 2 = Inr ident"
    using u w1 by (cases "index (split_ws cmd) 2") simp_all
  show ?thesis
  proof (cases "current_machine_is_production_server env \<and> word1 = ''srg''")
    case True
    obtain out where o: "get_unix_command_output env (get_srg_name_command ''/NAS/mis/srg'' ident) = Inr out"
      using u w1 w2 True
      by (cases "get_unix_command_output env (get_srg_name_command ''/NAS/mis/srg'' ident)") simp_all
    obtain piece where p: "index (split out ''/NAS/mis/srg/'') 1 = Inr piece"
      using u w1 w2 True o by (cases "index (split out ''/NAS/mis/srg/'') 1") simp_all
    have l: "logfile = ''/NAS/mis/srg/'' @ [CHR 0x27] @ butlast piece @ [CHR 0x27] @ ''/logs/logfile.txt''"
      using u w1 w2 True o p by simp
    obtain printed where "popen_output env (get_srg_name_command ''/NAS/mis/srg'' ident) = Inr printed"
      "out = strip printed"
      using get_unix_command_output_strip [OF o] by blast
    then have "\<exists>output piece.
                       popen_output env (get_srg_name_command ''/NAS/mis/srg'' ident) = Inr output
                       \<and> index (split (strip output) ''/NAS/mis/srg/'') 1 = Inr piece
                       \<and> logfile = ''/NAS/mis/srg/'' @ [CHR 0x27] @ butlast piece @ [CHR 0x27]
                                     @ ''/logs/logfile.txt''"
      using p l by blast
    then have "(if startswith runjob_cmd ''publish''
            then publish_to_runjob env runjob_cmd = Inr (Some cmd)
            else cmd = runjob_cmd)
           \<and> index (split_ws cmd) 1 = Inr word1
           \<and> index (split_ws cmd) 2 = Inr ident
           \<and> (if current_machine_is_production_server env \<and> word1 = ''srg''
               then (\<exists>output piece.
                       popen_output env (get_srg_name_command ''/NAS/mis/srg'' ident) = Inr output
                       \<and> index (split (strip output) ''/NAS/mis/srg/'') 1 = Inr piece
                       \<and> logfile = ''/NAS/mis/srg/'' @ [CHR 0x27] @ butlast piece @ [CHR 0x27]
                                     @ ''/logs/logfile.txt'')
               else (\<exists>base_dir output.
                       (if current_machine_is_production_server env
                        then (\<exists>piece1. index (split word1 ''_'') 1 = Inr piece1
                                \<and> base_dir = ''/NAS/mis/jobs/'' @ hd (split word1 ''_'') @ ''/''
                                               @ piece1 @ ''/log'')
                        else base_dir = (if word1 = ''srg'' then ''/NAS/mis/tmp/_srg''
                                         else ''/NAS/mis/tmp/_jobs/'' @ word1))
                       \<and> popen_output env (logfile_command base_dir ident) = Inr output
                       \<and> logfile = strip output))"
      using cmd' w1 w2 True by (simp only: if_True simp_thms)
    then show ?thesis by blast
  next
    case False
    have "\<exists>base_dir output.
                       (if current_machine_is_production_server env
                        then (\<exists>piece1. index (split word1 ''_'') 1 = Inr piece1
                                \<and> base_dir = ''/NAS/mis/jobs/'' @ hd (split word1 ''_'') @ ''/''
                                               @ piece1 @ ''/log'')
                        else base_dir = (if word1 = ''srg'' then ''/NAS/mis/tmp/_srg''
                                         else ''/NAS/mis/tmp/_jobs/'' @ word1))
                       \<and> popen_output env (logfile_command base_dir ident) = Inr output
                       \<and> logfile = strip output"
    proof (cases "current_machine_is_production_server env")
      case prod: True
      obtain piece1 where p: "index (split word1 ''_'') 1 = Inr piece1"
        using u w1 w2 False prod by (cases "index (split word1 ''_'') 1") simp_all
      let ?dir = "''/NAS/mis/jobs/'' @ hd (split word1 ''_'') @ ''/'' @ piece1 @ ''/log''"
      have "get_unix_command_output env (logfile_command ?dir ident) = Inr logfile"
        using u w1 w2 False prod p by simp
      then obtain printed where "popen_output env (logfile_command ?dir ident) = Inr printed"
        "logfile = strip printed"
        using get_unix_command_output_strip by blast
      then have "(if current_machine_is_production_server env
                        then (\<exists>piece1. index (split word1 ''_'') 1 = Inr piece1
                                \<and> ?dir = ''/NAS/mis/jobs/'' @ hd (split word1 ''_'') @ ''/''
                                               @ piece1 @ ''/log'')
                        else ?dir = (if word1 = ''srg'' then ''/NAS/mis/tmp/_srg''
                                         else ''/NAS/mis/tmp/_jobs/'' @ word1))
                       \<and> popen_output env (logfile_command ?dir ident) = Inr printed
                       \<and> logfile = strip printed"
        using prod p by (simp only: if_True simp_thms) blast
      then show ?thesis by blast
    next
      case dev: False
      let ?dir = "if word1 = ''srg'' then ''/NAS/mis/tmp/_srg'' else ''/NAS/mis/tmp/_jobs/'' @ word1"
      have "get_unix_command_output env (logfile_command ?dir ident) = Inr logfile"
        using u w1 w2 dev by simp
      then obtain printed where "popen_output env (logfile_command ?dir ident) = Inr printed"
        "logfile = strip printed"
        using get_unix_command_output_strip by blast
      then have "(if current_machine_is_production_server env
                        then (\<exists>piece1. index (split word1 ''_'') 1 = Inr piece1
                                \<and> ?dir = ''/NAS/mis/jobs/'' @ hd (split word1 ''_'') @ ''/''
                                               @ piece1 @ ''/log'')
                        else ?dir = (if word1 = ''srg'' then ''/NAS/mis/tmp/_srg''
                                         else ''/NAS/mis/tmp/_jobs/'' @ word1))
                       \<and> popen_output env (logfile_command ?dir ident) = Inr printed
                       \<and> logfile = strip printed"
        using dev by (simp only: if_False simp_thms)
      then show ?thesis by blast
    qed
    then have "(if startswith runjob_cmd ''publish''
            then publish_to_runjob env runjob_cmd = Inr (Some cmd)
            else cmd = runjob_cmd)
           \<and> index (split_ws cmd) 1 = Inr word1
           \<and> index (split_ws cmd) 2 = Inr ident
           \<and> (if current_machine_is_production_server env \<and> word1 = ''srg''
               then (\<exists>output piece.
                       popen_output env (get_srg_name_command ''/NAS/mis/srg'' ident) = Inr output
                       \<and> index (split (strip output) ''/NAS/mis/srg/'') 1 = Inr piece
                       \<and> logfile = ''/NAS/mis/srg/'' @ [CHR 0x27] @ butlast piece @ [CHR 0x27]
                                     @ ''/logs/logfile.txt'')
               else (\<exists>base_dir output.
                       (if current_machine_is_production_server env
                        then (\<exists>piece1. index (split word1 ''_'') 1 = Inr piece1
                                \<and> base_dir = ''/NAS/mis/jobs/'' @ hd (split word1 ''_'') @ ''/''
                                               @ piece1 @ ''/log'')
                        else base_dir = (if word1 = ''srg'' then ''/NAS/mis/tmp/_srg''
                                         else ''/NAS/mis/tmp/_jobs/'' @ word1))
                       \<and> popen_output env (logfile_command base_dir ident) = Inr output
                       \<and> logfile = strip output))"
      using cmd' w1 w2 False by (simp only: if_False simp_thms)
    then show ?thesis by blast
  qed
qed

lemma get_runjob_logfile_total: "\<exists>logfile. get_runjob_logfile env runjob_cmd = Inr logfile"
  by (simp add: get_runjob_logfile_def split: sum.split)

lemma report_notes:
  "\<exists>notes. report env d = Inr notes
      \<and> map (\<lambda>(k, logfile). (k, Inr logfile)) notes
          = map (\<lambda>(k, v). (k, get_runjob_logfile env k))
              (filter (\<lambda>(k, v). (v = ''LONGRUN'' \<or> v = ''FAILURE'') \<and> has_logfile k) d)"
proof (induction d)
  case Nil
  show ?case by simp
next
  case (Cons kv d)
  obtain k v where kv: "kv = (k, v)" by (cases kv)
  obtain rest where rest: "report env d = Inr rest"
    "map (\<lambda>(k, logfile). (k, Inr logfile)) rest
          = map (\<lambda>(k, v). (k, get_runjob_logfile env k))
              (filter (\<lambda>(k, v). (v = ''LONGRUN'' \<or> v = ''FAILURE'') \<and> has_logfile k) d)"
    using Cons.IH by blast
  obtain logfile where l: "get_runjob_logfile env k = Inr logfile"
    using get_runjob_logfile_total by blast
  show ?case
  proof (cases "(v = ''LONGRUN'' \<or> v = ''FAILURE'') \<and> has_logfile k")
    case True
    then have "report env (kv # d) = Inr ((k, logfile) # rest)" using kv rest(1) l by simp
    then show ?thesis using True kv rest(2) l by simp
  next
    case False
    then have "report env (kv # d) = Inr rest" using kv rest(1) by auto
    then show ?thesis using False kv rest(2) by auto
  qed
qed

lemma no_listing_output_when_empty:
  assumes "get_runjob_logfile env runjob_cmd = Inr []"
  shows "\<exists>base_dir identifier output.
           popen_output env (logfile_command base_dir identifier) = Inr output \<and> strip output = []"
proof (cases "get_runjob_logfile_try env runjob_cmd")
  case (Inl e)
  then show ?thesis using assms by (simp add: get_runjob_logfile_def)
next
  case (Inr logfile)
  then have "logfile = []" using assms by (simp add: get_runjob_logfile_def)
  then have t: "get_runjob_logfile_try env runjob_cmd = Inr []" using Inr by simp
  obtain word1 ident where c: "if current_machine_is_production_server env \<and> word1 = ''srg''
               then (\<exists>output piece.
                       popen_output env (get_srg_name_command ''/NAS/mis/srg'' ident) = Inr output
                       \<and> index (split (strip output) ''/NAS/mis/srg/'') 1 = Inr piece
                       \<and> [] = ''/NAS/mis/srg/'' @ [CHR 0x27] @ butlast piece @ [CHR 0x27]
                                     @ ''/logs/logfile.txt'')
               else (\<exists>base_dir output.
                       (if current_machine_is_production_server env
                        then (\<exists>piece1. index (split word1 ''_'') 1 = Inr piece1
                                \<and> base_dir = ''/NAS/mis/jobs/'' @ hd (split word1 ''_'') @ ''/''
                                               @ piece1 @ ''/log'')
                        else base_dir = (if word1 = ''srg'' then ''/NAS/mis/tmp/_srg''
                                         else ''/NAS/mis/tmp/_jobs/'' @ word1))
                       \<and> popen_output env (logfile_command base_dir ident) = Inr output
                       \<and> [] = strip output)"
    using get_runjob_logfile_try_cases [OF t] by blast
  show ?thesis
  proof (cases "current_machine_is_production_server env \<and> word1 = ''srg''")
    case True
    then show ?thesis using c by simp
  next
    case False
    then obtain base_dir printed where
      "popen_output env (logfile_command base_dir ident) = Inr printed" "[] = strip printed"
      using c by (simp only: if_False) blast
    then show ?thesis by metis
  qed
qed

text \<open>
  C4, as claimed, fails: on the sample host the listing of the log directory of the
  trackable command \<open>runjob all_x foo\<close> prints nothing, and the log path returned is the
  empty string.
\<close>

theorem empty_logfile:
  "has_logfile ''runjob all_x foo'' \<and> get_runjob_logfile sample_env ''runjob all_x foo'' = Inr ''''"
  by code_simp

text \<open>
  C4, amended: \<open>get_runjob_logfile\<close> raises nothing and returns a string. The string is
  the error sentinel, or it is determined by the run command (the input, or the
  translation of a \<open>publish\<close> command), whose second word is the job type and whose third
  word is the identifier: on a production machine with job type \<open>srg\<close> it is the quoted
  path built from the second piece of the output of \<open>get_srg_name_command\<close>; in every
  other case it is the standard output of \<open>logfile_command\<close>, the listing of the log
  directory of the job for that identifier, without the surrounding whitespace. The
  string is empty only in that last case, when the listing prints nothing.
  The report has one note for each \<open>LONGRUN\<close> or \<open>FAILURE\<close> entry of the results map whose
  command is trackable, in the order of the map, and the log path of the note is the
  result of \<open>get_runjob_logfile\<close> for that command; the report raises nothing.
\<close>

theorem get_runjob_logfile_returns:
  "(\<exists>logfile. get_runjob_logfile env runjob_cmd = Inr logfile
      \<and> (logfile = ''<LOGFILE RETRIEVAL ERROR>''
           \<or> (\<exists>cmd word1 identifier.
                 (if startswith runjob_cmd ''publish''
                  then publish_to_runjob env runjob_cmd = Inr (Some cmd)
                  else cmd = runjob_cmd)
                 \<and> index (split_ws cmd) 1 = Inr word1
                 \<and> index (split_ws cmd) 2 = Inr identifier
                 \<and> (if current_machine_is_production_server env \<and> word1 = ''srg''
                     then (\<exists>output piece.
                             popen_output env (get_srg_name_command ''/NAS/mis/srg'' identifier)
                               = Inr output
                             \<and> index (split (strip output) ''/NAS/mis/srg/'') 1 = Inr piece
                             \<and> logfile = ''/NAS/mis/srg/'' @ [CHR 0x27] @ butlast piece @ [CHR 0x27]
                                           @ ''/logs/logfile.txt'')
                     else (\<exists>base_dir output.
                             (if current_machine_is_production_server env
                              then (\<exists>piece1. index (split word1 ''_'') 1 = Inr piece1
                                      \<and> base_dir = ''/NAS/mis/jobs/'' @ hd (split word1 ''_'')
                                                     @ ''/'' @ piece1 @ ''/log'')
                              else base_dir = (if word1 = ''srg'' then ''/NAS/mis/tmp/_srg''
                                               else ''/NAS/mis/tmp/_jobs/'' @ word1))
                             \<and> popen_output env (logfile_command base_dir identifier) = Inr output
                             \<and> logfile = strip output))))
      \<and> (logfile = [] \<longrightarrow>
            (\<exists>base_dir identifier output.
               popen_output env (logfile_command base_dir identifier) = Inr output
               \<and> strip output = [])))
   \<and> (\<exists>notes. report env d = Inr notes
         \<and> map (\<lambda>(k, logfile). (k, Inr logfile)) notes
             = map (\<lambda>(k, v). (k, get_runjob_logfile env k))
                 (filter (\<lambda>(k, v). (v = ''LONGRUN'' \<or> v = ''FAILURE'') \<and> has_logfile k) d))"
proof (rule conjI)
  show "\<exists>notes. report env d = Inr notes
         \<and> map (\<lambda>(k, logfile). (k, Inr logfile)) notes
             = map (\<lambda>(k, v). (k, get_runjob_logfile env k))
                 (filter (\<lambda>(k, v). (v = ''LONGRUN'' \<or> v = ''FAILURE'') \<and> has_logfile k) d)"
    by (rule report_notes)
next
  obtain logfile where l: "get_runjob_logfile env runjob_cmd = Inr logfile"
    using get_runjob_logfile_total by blast
  have e: "logfile = [] \<longrightarrow>
            (\<exists>base_dir identifier output.
               popen_output env (logfile_command base_dir identifier) = Inr output
               \<and> strip output = [])"
    using l no_listing_output_when_empty by blast
  show "\<exists>logfile. get_runjob_logfile env runjob_cmd = Inr logfile
      \<and> (logfile = ''<LOGFILE RETRIEVAL ERROR>''
           \<or> (\<exists>cmd word1 identifier.
                 (if startswith runjob_cmd ''publish''
                  then publish_to_runjob env runjob_cmd = Inr (Some cmd)
                  else cmd = runjob_cmd)
                 \<and> index (split_ws cmd) 1 = Inr word1
                 \<and> index (split_ws cmd) 2 = Inr identifier
                 \<and> (if current_machine_is_production_server env \<and> word1 = ''srg''
                     then (\<exists>output piece.
                             popen_output env (get_srg_name_command ''/NAS/mis/srg'' identifier)
                               = Inr output
                             \<and> index (split (strip output) ''/NAS/mis/srg/'') 1 = Inr piece
                             \<and> logfile = ''/NAS/mis/srg/'' @ [CHR 0x27] @ butlast piece @ [CHR 0x27]
                                           @ ''/logs/logfile.txt'')
                     else (\<exists>base_dir output.
                             (if current_machine_is_production_server env
                              then (\<exists>piece1. index (split word1 ''_'') 1 = Inr piece1
                                      \<and> base_dir = ''/NAS/mis/jobs/'' @ hd (split word1 ''_'')
                                                     @ ''/'' @ piece1 @ ''/log'')
                              else base_dir = (if word1 = ''srg'' then ''/NAS/mis/tmp/_srg''
                                               else ''/NAS/mis/tmp/_jobs/'' @ word1))
                             \<and> popen_output env (logfile_command base_dir identifier) = Inr output
                             \<and> logfile = strip output))))
      \<and> (logfile = [] \<longrightarrow>
            (\<exists>base_dir identifier output.
               popen_output env (logfile_command base_dir identifier) = Inr output
               \<and> strip output = []))"
  proof (cases "get_runjob_logfile_try env runjob_cmd")
    case (Inl err)
    then have "logfile = ''<LOGFILE RETRIEVAL ERROR>''" using l by (simp add: get_runjob_logfile_def)
    then show ?thesis using l e by blast
  next
    case (Inr result)
    then have "result = logfile" using l by (simp add: get_runjob_logfile_def)
    then have "get_runjob_logfile_try env runjob_cmd = Inr logfile" using Inr by simp
    from get_runjob_logfile_try_cases [OF this] show ?thesis using l e by blast
  qed
qed

theorem get_runjob_logfile_returns_witness:
  "get_runjob_logfile sample_env ''runjob all_x foo'' = Inr []
   \<and> (\<exists>base_dir identifier output.
         popen_output sample_env (logfile_command base_dir identifier) = Inr output
         \<and> strip output = [])"
proof -
  have e: "get_runjob_logfile sample_env ''runjob all_x foo'' = Inr []" by code_simp
  obtain logfile where "get_runjob_logfile sample_env ''runjob all_x foo'' = Inr logfile"
    and "logfile = [] \<longrightarrow>
            (\<exists>base_dir identifier output.
               popen_output sample_env (logfile_command base_dir identifier) = Inr output
               \<and> strip output = [])"
    using get_runjob_logfile_returns [of sample_env "''runjob all_x foo''" "[]"] by blast
  then show ?thesis using e by simp
qed


section \<open>The job classifier\<close>

text \<open>
  C8: \<open>has_logfile command\<close> is true exactly when \<open>command\<close> contains \<open>runjob\<close> or
  \<open>publish\<close> as a substring, that is, when the command is some text, one of the two
  tokens, and some text. The predicate is a function of the command alone.
\<close>

theorem has_logfile_iff_token:
  "has_logfile command \<longleftrightarrow>
     (\<exists>u v. command = u @ ''runjob'' @ v) \<or> (\<exists>u v. command = u @ ''publish'' @ v)"
  by (simp add: has_logfile_def str_in_sublist sublist_def)

end
